theory Spec2Isabelle
  imports Complex_Main "HOL-Library.Char_ord" "HOL-Library.List_Lexorder" "HOL-Library.Multiset"
begin

section \<open>Python values and exceptions\<close>

text \<open>
  The exceptions that the modelled functions of \<^verbatim>\<open>functions.py\<close> raise or catch.
  \<open>ValueError\<close> stands for that class and its subclasses, among them the errors
  \<^verbatim>\<open>NotXMLError\<close> and \<^verbatim>\<open>CorruptedXMLError\<close> that \<^verbatim>\<open>Entrez.read\<close> raises on a
  response that is empty or no well-formed XML. \<open>OtherException\<close> stands for any other
  subclass of \<^verbatim>\<open>Exception\<close>.
\<close>

datatype exn =
    HTTPError
  | IndexError
  | KeyError
  | ValueError
  | TypeError
  | NameError string
  | CalledProcessError
  | UnicodeEncodeError
  | ParseError
  | OtherException

text \<open>The values a caller may pass as \<^verbatim>\<open>pmid\<close> to \<^verbatim>\<open>get_citations\<close>.\<close>

datatype pyval = PyNone | PyInt int | PyStr string

fun truthy :: "pyval \<Rightarrow> bool" where
  "truthy PyNone = False"
| "truthy (PyInt n) = (n \<noteq> 0)"
| "truthy (PyStr s) = (s \<noteq> [])"

fun is_str :: "pyval \<Rightarrow> bool" where
  "is_str (PyStr s) = True"
| "is_str v = False"

section \<open>Citation counter: \<^verbatim>\<open>get_citations\<close>\<close>

text \<open>
  The parsed answer of \<^verbatim>\<open>Entrez.read\<close>: a list of link sets. A link set may have a
  \<^verbatim>\<open>LinkSetDb\<close> entry, a list whose elements may have a \<^verbatim>\<open>Link\<close> entry, the list
  of citing articles.
\<close>

type_synonym link_set_db = "string list option"
type_synonym link_set = "link_set_db list option"

text \<open>What the function does to the outside: requests issued and seconds slept.\<close>

record net_log =
  requests :: nat
  sleeps :: "nat list"

definition no_log :: net_log where
  "no_log = \<lparr>requests = 0, sleeps = []\<rparr>"

text \<open>The body of the \<^verbatim>\<open>try\<close> block once \<^verbatim>\<open>Entrez.read\<close> has returned.\<close>

definition count_links :: "link_set list \<Rightarrow> int" where
  "count_links record =
     (case record of
        [] \<Rightarrow> 0
      | ls # _ \<Rightarrow>
          (case ls of
             None \<Rightarrow> 0
           | Some link_set_db \<Rightarrow>
               (case link_set_db of
                  [] \<Rightarrow> 0
                | db # _ \<Rightarrow>
                    (case db of
                       None \<Rightarrow> 0
                     | Some links \<Rightarrow> int (length links)))))"

text \<open>
  The loop \<^verbatim>\<open>for retry in range(max_retries)\<close>. The service is a parameter: \<open>elink retry\<close>
  is what the request of iteration \<open>retry\<close> gives, a parsed record or a raised exception.
  A loop that ends without \<^verbatim>\<open>return\<close> makes the function return \<^verbatim>\<open>None\<close>.
\<close>

fun citations_loop ::
  "(nat \<Rightarrow> exn + link_set list) \<Rightarrow> int \<Rightarrow> nat list \<Rightarrow> net_log \<Rightarrow> int option \<times> net_log" where
  "citations_loop elink max_retries [] net = (None, net)"
| "citations_loop elink max_retries (retry # rest) net =
     (let net' = net\<lparr>requests := requests net + 1\<rparr> in
      case elink retry of
        Inr record \<Rightarrow> (Some (count_links record), net')
      | Inl HTTPError \<Rightarrow>
          if int retry < max_retries - 1
          then citations_loop elink max_retries rest (net'\<lparr>sleeps := sleeps net' @ [2]\<rparr>)
          else (None, net')
      | Inl IndexError \<Rightarrow> (Some 0, net')
      | Inl KeyError \<Rightarrow> (Some 0, net')
      | Inl _ \<Rightarrow> (None, net'))"

definition get_citations_retries ::
  "pyval \<Rightarrow> int \<Rightarrow> (nat \<Rightarrow> exn + link_set list) \<Rightarrow> int option \<times> net_log" where
  "get_citations_retries pmid max_retries elink =
     (if \<not> truthy pmid \<or> \<not> is_str pmid then (Some 0, no_log)
      else citations_loop elink max_retries [0..<nat max_retries] no_log)"

text \<open>The call with the default \<^verbatim>\<open>max_retries=3\<close>, the only one the program makes.\<close>

definition get_citations :: "pyval \<Rightarrow> (nat \<Rightarrow> exn + link_set list) \<Rightarrow> int option \<times> net_log" where
  "get_citations pmid elink = get_citations_retries pmid 3 elink"

section \<open>Threshold filter: the first loop of \<^verbatim>\<open>ref_gen\<close>\<close>

text \<open>
  The loop over the identifiers read from the list file. Each pair holds an identifier and
  the value \<^verbatim>\<open>get_citations\<close> returned for it in that iteration (\<open>None\<close> is the failure
  signal). The state is the pair of lists \<^verbatim>\<open>pmids_with_at_least_X_citations\<close> and
  \<^verbatim>\<open>pmids_sub_threshold\<close>. The pause of 3 seconds that ends each iteration changes
  neither list and is left out.
\<close>

fun threshold_loop ::
  "int \<Rightarrow> (string \<times> int option) list \<Rightarrow> string list \<times> string list \<Rightarrow> string list \<times> string list" where
  "threshold_loop threshold [] (kept, sub) = (kept, sub)"
| "threshold_loop threshold ((pmid, citation_count) # rest) (kept, sub) =
     (case citation_count of
        None \<Rightarrow> threshold_loop threshold rest (kept, sub @ [pmid])
      | Some c \<Rightarrow>
          if c \<ge> threshold then threshold_loop threshold rest (kept @ [pmid], sub)
          else threshold_loop threshold rest (kept, sub @ [pmid]))"

definition threshold_filter :: "int \<Rightarrow> (string \<times> int option) list \<Rightarrow> string list \<times> string list" where
  "threshold_filter threshold pairs = threshold_loop threshold pairs ([], [])"

text \<open>The condition of the kept branch, for stating properties: a count that is determined
  and reaches the threshold.\<close>

definition passes :: "int \<Rightarrow> string \<times> int option \<Rightarrow> bool" where
  "passes threshold p = (case snd p of None \<Rightarrow> False | Some c \<Rightarrow> c \<ge> threshold)"

section \<open>Duplicate resolution: \<^verbatim>\<open>remove_duplicates\<close>\<close>

text \<open>
  A parsed BibTeX entry is a dictionary from field names to strings;
  \<^verbatim>\<open>entry.get(k)\<close> is \<open>entry k\<close>, with \<open>None\<close> for an absent field.
\<close>

type_synonym entry = "string \<rightharpoonup> string"

text \<open>Truth value of an optional string: \<^verbatim>\<open>None\<close> and the empty string are false.\<close>

definition opt_truthy :: "string option \<Rightarrow> bool" where
  "opt_truthy v = (case v of None \<Rightarrow> False | Some s \<Rightarrow> s \<noteq> [])"

text \<open>
  The dictionary \<^verbatim>\<open>groups\<close> keeps its keys in insertion order, so it is an association
  list with distinct keys. Its keys are the values of \<^verbatim>\<open>entry.get('pmid')\<close>, among
  them \<^verbatim>\<open>None\<close>.
\<close>

type_synonym groups = "(string option \<times> entry list) list"

definition dict_append :: "groups \<Rightarrow> string option \<Rightarrow> entry \<Rightarrow> groups" where
  "dict_append groups pmid entry =
     map (\<lambda>(k, es). if k = pmid then (k, es @ [entry]) else (k, es)) groups"

definition add_entry :: "groups \<Rightarrow> entry \<Rightarrow> groups" where
  "add_entry groups entry =
     (let pmid = entry ''pmid'';
          groups' = (if pmid \<notin> set (map fst groups) then groups @ [(pmid, [])] else groups)
      in dict_append groups' pmid entry)"

definition group_by_pmid :: "entry list \<Rightarrow> groups" where
  "group_by_pmid entries = foldl add_entry [] entries"

text \<open>
  \<^verbatim>\<open>fetch_title_from_biopython\<close>: \<open>efetch pmid\<close> is what the request, the parse and the
  path \<^verbatim>\<open>record['PubmedArticle'][0]['MedlineCitation']['Article']['ArticleTitle']\<close> give:
  the title, or the exception raised on the way. The function catches nothing. The keys
  of \<^verbatim>\<open>groups\<close> are distinct, so a run asks at most once per key and a function of the
  key describes the service.
\<close>

definition fetch_title_from_biopython ::
  "(string option \<Rightarrow> exn + string) \<Rightarrow> string option \<Rightarrow> exn + string option" where
  "fetch_title_from_biopython efetch pmid =
     (case efetch pmid of
        Inl e \<Rightarrow> Inl e
      | Inr title \<Rightarrow> Inr (if title \<noteq> [] then Some title else None))"

text \<open>\<^verbatim>\<open>xs[0]\<close>, which raises on the empty list.\<close>

definition first_of :: "'a list \<Rightarrow> exn + 'a" where
  "first_of xs = (case xs of [] \<Rightarrow> Inl IndexError | x # _ \<Rightarrow> Inr x)"

text \<open>
  \<^verbatim>\<open>sorted(entries, key=lambda x: x.get('year'))\<close>: a stable sort on the year strings,
  compared as Python compares strings (lexicographically by character). Any comparison
  with \<^verbatim>\<open>None\<close> raises \<^verbatim>\<open>TypeError\<close>, and sorting two or more elements compares each
  of them at least once.
\<close>

definition sorted_by_year :: "entry list \<Rightarrow> exn + entry list" where
  "sorted_by_year entries =
     (if length entries < 2 then Inr entries
      else if None \<in> set (map (\<lambda>x. x ''year'') entries) then Inl TypeError
      else Inr (sort_key (\<lambda>x. the (x ''year'')) entries))"

definition earliest_year :: "entry list \<Rightarrow> exn + entry" where
  "earliest_year entries =
     (case sorted_by_year entries of
        Inl e \<Rightarrow> Inl e
      | Inr sorted_entries \<Rightarrow> first_of sorted_entries)"

text \<open>The body of the loop over \<^verbatim>\<open>groups.items()\<close>: the entry kept for one group.\<close>

definition resolve_group ::
  "(string option \<Rightarrow> exn + string) \<Rightarrow> string option \<Rightarrow> entry list \<Rightarrow> exn + entry" where
  "resolve_group efetch pmid entries =
     (if length entries = 1 then first_of entries
      else
        (case fetch_title_from_biopython efetch pmid of
           Inl e \<Rightarrow> Inl e
         | Inr title_from_biopython \<Rightarrow>
             if opt_truthy title_from_biopython then
               (let matching_entries =
                      filter (\<lambda>entry. entry ''title'' = title_from_biopython) entries
                in if matching_entries \<noteq> [] then first_of matching_entries
                   else earliest_year entries)
             else earliest_year entries))"

fun resolve_all :: "(string option \<Rightarrow> exn + string) \<Rightarrow> groups \<Rightarrow> exn + entry list" where
  "resolve_all efetch [] = Inr []"
| "resolve_all efetch ((pmid, entries) # rest) =
     (case resolve_group efetch pmid entries of
        Inl e \<Rightarrow> Inl e
      | Inr kept \<Rightarrow>
          (case resolve_all efetch rest of
             Inl e \<Rightarrow> Inl e
           | Inr unique_entries \<Rightarrow> Inr (kept # unique_entries)))"

text \<open>
  \<^verbatim>\<open>remove_duplicates\<close> on the parsed entries of the input file; the result is the list
  \<^verbatim>\<open>unique_entries\<close> handed to the writer, or the exception that ends the call.
\<close>

definition remove_duplicates :: "(string option \<Rightarrow> exn + string) \<Rightarrow> entry list \<Rightarrow> exn + entry list" where
  "remove_duplicates efetch entries = resolve_all efetch (group_by_pmid entries)"

section \<open>Lightweight duplicate check: \<^verbatim>\<open>check_info_check_duplicates\<close>\<close>

text \<open>
  The helper \<^verbatim>\<open>remove_duplicates(entries, key)\<close> nested in
  \<^verbatim>\<open>check_info_check_duplicates\<close>. The loop state is \<^verbatim>\<open>seen\<close>, \<^verbatim>\<open>new_entries\<close> and
  \<^verbatim>\<open>removed_keys\<close>; the sets hold values of \<^verbatim>\<open>entry.get(key)\<close>.
\<close>

fun remove_duplicates_loop ::
  "string \<Rightarrow> entry list \<Rightarrow> string option set \<times> entry list \<times> string option set
     \<Rightarrow> entry list \<times> string option set" where
  "remove_duplicates_loop key [] (seen, new_entries, removed_keys) = (new_entries, removed_keys)"
| "remove_duplicates_loop key (entry # rest) (seen, new_entries, removed_keys) =
     (let val = entry key in
      if \<not> opt_truthy val then
        remove_duplicates_loop key rest (seen, new_entries @ [entry], removed_keys)
      else if val \<in> seen then
        remove_duplicates_loop key rest (seen, new_entries, insert val removed_keys)
      else
        remove_duplicates_loop key rest (insert val seen, new_entries @ [entry], removed_keys))"

definition remove_duplicates_by_key :: "entry list \<Rightarrow> string \<Rightarrow> entry list \<times> string option set" where
  "remove_duplicates_by_key entries key = remove_duplicates_loop key entries ({}, [], {})"

text \<open>The three passes, in the order of the source: entry key, then PMID, then DOI.\<close>

record duplicate_check =
  remaining :: "entry list"
  removed_ids :: "string option set"
  removed_pmids :: "string option set"
  removed_dois :: "string option set"

definition check_info_check_duplicates :: "entry list \<Rightarrow> duplicate_check" where
  "check_info_check_duplicates entries =
     (let (entries1, dup_ids) = remove_duplicates_by_key entries ''ID'';
          (entries2, dup_pmids) = remove_duplicates_by_key entries1 ''pmid'';
          (entries3, dup_dois) = remove_duplicates_by_key entries2 ''doi''
      in \<lparr>remaining = entries3, removed_ids = dup_ids,
          removed_pmids = dup_pmids, removed_dois = dup_dois\<rparr>)"

section \<open>Enrichment: \<^verbatim>\<open>append_doi_pmid_to_entry\<close>\<close>

subsection \<open>Characters and string helpers\<close>

text \<open>
  A character of record text is one of the code points U+0000 to U+00FF, so \<open>CHR 0xA0\<close>
  is the no-break space and \<open>CHR 0xE9\<close> the letter e with acute accent. On these code
  points \<open>is_space\<close> is Python's \<^verbatim>\<open>str.isspace\<close>, which \<^verbatim>\<open>str.rstrip\<close> and the
  pattern \<^verbatim>\<open>\s\<close> use, and \<open>is_word\<close> is the pattern \<^verbatim>\<open>\w\<close>: the alphanumeric
  characters (letters, digits, and the superscript digits and fractions of U+00B2 to
  U+00BE) and the underscore. With \<^verbatim>\<open>re.IGNORECASE\<close> each letter of \<^verbatim>\<open>pmid\<close> matches
  itself and its capital, and no other of these code points.
\<close>

definition nl :: char where
  "nl = CHR 0x0A"

definition is_space :: "char \<Rightarrow> bool" where
  "is_space c =
     (c \<in> set [CHR 0x09, CHR 0x0A, CHR 0x0B, CHR 0x0C, CHR 0x0D,
                CHR 0x1C, CHR 0x1D, CHR 0x1E, CHR 0x1F, CHR 0x20, CHR 0x85, CHR 0xA0])"

definition is_word :: "char \<Rightarrow> bool" where
  "is_word c =
     (let n = (of_char c :: nat) in
      (0x30 \<le> n \<and> n \<le> 0x39) \<or> (0x41 \<le> n \<and> n \<le> 0x5A) \<or> n = 0x5F
      \<or> (0x61 \<le> n \<and> n \<le> 0x7A) \<or> n = 0xAA \<or> (0xB2 \<le> n \<and> n \<le> 0xB3) \<or> n = 0xB5
      \<or> (0xB9 \<le> n \<and> n \<le> 0xBA) \<or> (0xBC \<le> n \<and> n \<le> 0xBE)
      \<or> (0xC0 \<le> n \<and> n \<le> 0xD6) \<or> (0xD8 \<le> n \<and> n \<le> 0xF6) \<or> 0xF8 \<le> n)"

definition lower_char :: "char \<Rightarrow> char" where
  "lower_char c =
     (case map_of (zip ''ABCDEFGHIJKLMNOPQRSTUVWXYZ'' ''abcdefghijklmnopqrstuvwxyz'') c of
        None \<Rightarrow> c
      | Some l \<Rightarrow> l)"

text \<open>\<^verbatim>\<open>s.rstrip()\<close>, \<^verbatim>\<open>s.rfind(c)\<close> (\<open>None\<close> for \<^verbatim>\<open>-1\<close>) and \<^verbatim>\<open>s.endswith(',')\<close>.\<close>

definition rstrip :: "string \<Rightarrow> string" where
  "rstrip s = rev (dropWhile is_space (rev s))"

definition rfind :: "char \<Rightarrow> string \<Rightarrow> nat option" where
  "rfind c s =
     (if c \<in> set s then Some (length s - Suc (length (takeWhile (\<lambda>x. x \<noteq> c) (rev s))))
      else None)"

definition endswith_comma :: "string \<Rightarrow> bool" where
  "endswith_comma s = (s \<noteq> [] \<and> last s = CHR '','')"

subsection \<open>The search for an existing PMID field\<close>

text \<open>
  \<^verbatim>\<open>re.search(r'\bpmid\s*=\s*{.*?}', bibtex_entry, re.IGNORECASE)\<close>.
  \<open>pmid_field_here s\<close> matches \<^verbatim>\<open>pmid\s*=\s*{.*?}\<close> at the start of \<open>s\<close>: the four
  letters in any case, whitespace, \<^verbatim>\<open>=\<close>, whitespace, \<^verbatim>\<open>{\<close>, then a \<^verbatim>\<open>}\<close> before any
  newline (the dot matches no newline). The character after a run of \<^verbatim>\<open>\s*\<close> is no
  whitespace, so giving characters back never helps and the greedy reading decides.
  \<open>pmid_search prev s\<close> tries every start position; \<open>prev\<close> is the character before it,
  and \<^verbatim>\<open>\b\<close> before a letter holds at the start of the text or after a non-word character.
\<close>

definition pmid_field_here :: "string \<Rightarrow> bool" where
  "pmid_field_here s =
     (map lower_char (take 4 s) = ''pmid'' \<and>
      (case dropWhile is_space (drop 4 s) of
         [] \<Rightarrow> False
       | c # r \<Rightarrow>
           c = CHR ''='' \<and>
           (case dropWhile is_space r of
              [] \<Rightarrow> False
            | c' # r' \<Rightarrow>
                c' = CHR ''{'' \<and>
                (case dropWhile (\<lambda>x. x \<noteq> CHR ''}'' \<and> x \<noteq> nl) r' of
                   [] \<Rightarrow> False
                 | c'' # _ \<Rightarrow> c'' = CHR ''}''))))"

definition word_boundary_after :: "char option \<Rightarrow> bool" where
  "word_boundary_after prev = (case prev of None \<Rightarrow> True | Some c \<Rightarrow> \<not> is_word c)"

fun pmid_search :: "char option \<Rightarrow> string \<Rightarrow> bool" where
  "pmid_search prev [] = False"
| "pmid_search prev (c # cs) =
     ((word_boundary_after prev \<and> pmid_field_here (c # cs)) \<or> pmid_search (Some c) cs)"

definition pmid_exists :: "string \<Rightarrow> bool" where
  "pmid_exists bibtex_entry = pmid_search None bibtex_entry"


subsection \<open>The two DOI lookups\<close>

text \<open>
  \<^verbatim>\<open>pmid_to_doi\<close>. The reply of \<^verbatim>\<open>requests.get\<close> is a parameter: an exception, or the
  status code with the parse of the body, which is malformed (\<^verbatim>\<open>ET.ParseError\<close>) or a
  document whose \<^verbatim>\<open>ArticleId\<close> elements are listed in order, each with its
  \<^verbatim>\<open>IdType\<close> attribute and its text. Only the parse error is caught.
\<close>

record article_id =
  id_type :: "string option"
  id_text :: "string option"

datatype xml = Malformed | Document "article_id list"

fun first_doi :: "article_id list \<Rightarrow> exn + string option" where
  "first_doi [] = Inr None"
| "first_doi (a # rest) =
     (if id_type a = Some ''doi'' then
        (case id_text a of
           None \<Rightarrow> Inl TypeError
         | Some t \<Rightarrow> Inr (Some (''https://doi.org/'' @ t)))
      else first_doi rest)"

definition pmid_to_doi :: "string \<Rightarrow> exn + nat \<times> xml \<Rightarrow> exn + string option \<times> string option" where
  "pmid_to_doi pmid reply =
     (case reply of
        Inl e \<Rightarrow> Inl e
      | Inr (status_code, body) \<Rightarrow>
          if status_code = 200 then
            (case body of
               Malformed \<Rightarrow> Inr (None, None)
             | Document ids \<Rightarrow>
                 (case first_doi ids of
                    Inl e \<Rightarrow> Inl e
                  | Inr None \<Rightarrow> Inr (None, Some pmid)
                  | Inr (Some doi) \<Rightarrow> Inr (Some doi, Some pmid)))
          else Inr (None, None))"

text \<open>
  \<^verbatim>\<open>pmid_to_doi_via_crossref\<close>. The reply is an exception, or the status code with the
  JSON body: unreadable, without \<^verbatim>\<open>message\<close>/\<^verbatim>\<open>items\<close>, or the \<^verbatim>\<open>DOI\<close> entries of
  the items. Every exception is caught.
\<close>

datatype crossref_json = JsonError | NoItems | Items "string option list"

definition pmid_to_doi_via_crossref ::
  "string \<Rightarrow> exn + nat \<times> crossref_json \<Rightarrow> string option \<times> string option" where
  "pmid_to_doi_via_crossref pmid reply =
     (case reply of
        Inl e \<Rightarrow> (None, Some pmid)
      | Inr (status_code, data) \<Rightarrow>
          if status_code = 200 then
            (case data of
               JsonError \<Rightarrow> (None, Some pmid)
             | NoItems \<Rightarrow> (None, Some pmid)
             | Items [] \<Rightarrow> (None, Some pmid)
             | Items (doi # _) \<Rightarrow>
                 if opt_truthy doi then (Some (''https://doi.org/'' @ the doi), Some pmid)
                 else (None, Some pmid))
          else (None, Some pmid))"

definition resolve_doi ::
  "string \<Rightarrow> exn + nat \<times> xml \<Rightarrow> exn + nat \<times> crossref_json \<Rightarrow> exn + string option \<times> string option" where
  "resolve_doi pmid entrez_reply crossref_reply =
     (case pmid_to_doi pmid entrez_reply of
        Inl e \<Rightarrow> Inl e
      | Inr (doi, pmid_out) \<Rightarrow>
          if doi = None then Inr (pmid_to_doi_via_crossref pmid crossref_reply)
          else Inr (doi, pmid_out))"

subsection \<open>The textual patch\<close>

definition lines_to_add :: "string \<Rightarrow> string option \<Rightarrow> string option \<Rightarrow> string list" where
  "lines_to_add bibtex_entry doi pmid_out =
     (if opt_truthy doi then [''    DOI = {'' @ the doi @ ''},'' @ [nl]] else []) @
     (if opt_truthy pmid_out \<and> \<not> pmid_exists bibtex_entry
      then [''    pmid = {'' @ the pmid_out @ ''},'' @ [nl]] else [])"

definition patch_entry :: "string \<Rightarrow> string option \<Rightarrow> string option \<Rightarrow> string" where
  "patch_entry bibtex_entry doi pmid_out =
     (let lines = lines_to_add bibtex_entry doi pmid_out in
      if lines = [] then bibtex_entry
      else
        (case rfind (CHR ''}'') bibtex_entry of
           None \<Rightarrow> bibtex_entry @ concat lines
         | Some last_brace_pos \<Rightarrow>
             (let before = rstrip (take last_brace_pos bibtex_entry);
                  after = drop last_brace_pos bibtex_entry;
                  before' = (if \<not> endswith_comma before then before @ '','' else before)
              in before' @ [nl] @ concat lines @ after)))"

definition append_doi_pmid_to_entry ::
  "string \<Rightarrow> string \<Rightarrow> exn + nat \<times> xml \<Rightarrow> exn + nat \<times> crossref_json \<Rightarrow> exn + string" where
  "append_doi_pmid_to_entry bibtex_entry pmid entrez_reply crossref_reply =
     (case resolve_doi pmid entrez_reply crossref_reply of
        Inl e \<Rightarrow> Inl e
      | Inr (doi, pmid_out) \<Rightarrow> Inr (patch_entry bibtex_entry doi pmid_out))"

subsection \<open>Brace structure of record text\<close>




section \<open>Record fetch: the second loop of \<^verbatim>\<open>ref_gen\<close>\<close>

text \<open>
  \<^verbatim>\<open>get_bibtex_for_pmid\<close>: the outcome of the \<^verbatim>\<open>pubmed-bib\<close> subprocess is a parameter,
  its decoded output or an exception. \<^verbatim>\<open>CalledProcessError\<close> is caught and gives
  \<^verbatim>\<open>None\<close>; any other exception leaves the function.
\<close>

definition get_bibtex_for_pmid :: "exn + string \<Rightarrow> exn + string option" where
  "get_bibtex_for_pmid proc =
     (case proc of
        Inr stdout \<Rightarrow> Inr (Some stdout)
      | Inl CalledProcessError \<Rightarrow> Inr None
      | Inl e \<Rightarrow> Inl e)"

text \<open>
  \<^verbatim>\<open>get_bibtex_via_crossref\<close> is called by \<^verbatim>\<open>ref_gen\<close>, but no module of the repository
  defines or imports a function of that name (\<^verbatim>\<open>functions.py\<close> defines
  \<^verbatim>\<open>pmid_to_doi_via_crossref\<close> only). Python looks a global name up when the call is
  evaluated, so the call raises \<^verbatim>\<open>NameError\<close>.
\<close>

definition get_bibtex_via_crossref :: "string \<Rightarrow> exn + string option" where
  "get_bibtex_via_crossref pmid = Inl (NameError ''get_bibtex_via_crossref'')"

text \<open>What the surroundings answer while one identifier is processed.\<close>

record services =
  pubmed_bib :: "nat \<Rightarrow> exn + string"
  entrez_doi :: "exn + nat \<times> xml"
  crossref_doi :: "exn + nat \<times> crossref_json"
  entrez_doi_retry :: "exn + nat \<times> xml"
  crossref_doi_retry :: "exn + nat \<times> crossref_json"
  write_raises :: "string \<Rightarrow> bool"
  sanitize_bibtex :: "string \<Rightarrow> string"
  encode_error_text :: string

text \<open>
  The state of the loop: the chunks written to the two open files, the error list, the
  two failure counters and the seconds slept.
\<close>

record run_state =
  bib_file :: "string list"
  pmid_file :: "string list"
  errors :: "string list"
  entrez_fail_count :: nat
  crossref_fail_count :: nat
  slept :: "rat list"

definition max_retries :: nat where
  "max_retries = 5"

definition initial_wait_time :: rat where
  "initial_wait_time = 3"

definition wait_time_increment :: rat where
  "wait_time_increment = 1 / 2"

text \<open>
  The loop \<^verbatim>\<open>while attempt < max_retries\<close>; the result is the last value of
  \<^verbatim>\<open>bibtex_entry\<close> and the waits made.
\<close>

function entrez_loop ::
  "(nat \<Rightarrow> exn + string) \<Rightarrow> nat \<Rightarrow> rat \<Rightarrow> string option \<Rightarrow> rat list
     \<Rightarrow> exn + string option \<times> rat list" where
  "entrez_loop proc attempt wait_time bibtex_entry waits =
     (if attempt < max_retries then
        (case get_bibtex_for_pmid (proc attempt) of
           Inl e \<Rightarrow> Inl e
         | Inr bibtex_entry' \<Rightarrow>
             if opt_truthy bibtex_entry' then Inr (bibtex_entry', waits)
             else entrez_loop proc (attempt + 1) (wait_time + wait_time_increment)
                    bibtex_entry' (waits @ [wait_time]))
      else Inr (bibtex_entry, waits))"
  by pat_completeness auto
termination
  by (relation "measure (\<lambda>(proc, attempt, wait_time, bibtex_entry, waits). max_retries - attempt)")
     auto

text \<open>
  The \<^verbatim>\<open>try\<close> block that enriches and writes one retrieved entry. Its handler catches
  \<^verbatim>\<open>UnicodeEncodeError\<close> only, and works on the value \<^verbatim>\<open>bibtex_entry\<close> has at that
  moment: the enriched text when the write raised, the retrieved text when the enrichment
  did. The inner handler logs the entry and goes on.
\<close>

definition write_failed :: "services \<Rightarrow> string \<Rightarrow> run_state \<Rightarrow> run_state" where
  "write_failed sv pmid st =
     st\<lparr>errors := errors st @
          [''Failed to write sanitized BibTeX entry for PMID '' @ pmid @
           ''. Error: '' @ encode_error_text sv]\<rparr>"

definition write_sanitized :: "services \<Rightarrow> string \<Rightarrow> string \<Rightarrow> run_state \<Rightarrow> exn + run_state" where
  "write_sanitized sv pmid bibtex_entry st =
     (case append_doi_pmid_to_entry (sanitize_bibtex sv bibtex_entry) pmid
             (entrez_doi_retry sv) (crossref_doi_retry sv) of
        Inl UnicodeEncodeError \<Rightarrow> Inr (write_failed sv pmid st)
      | Inl e \<Rightarrow> Inl e
      | Inr sanitized \<Rightarrow>
          if \<not> write_raises sv (sanitized @ [nl, nl]) then
            Inr (st\<lparr>bib_file := bib_file st @ [sanitized @ [nl, nl]]\<rparr>)
          else Inr (write_failed sv pmid st))"

definition write_entry :: "services \<Rightarrow> string \<Rightarrow> string \<Rightarrow> run_state \<Rightarrow> exn + run_state" where
  "write_entry sv pmid bibtex_entry st =
     (case append_doi_pmid_to_entry bibtex_entry pmid (entrez_doi sv) (crossref_doi sv) of
        Inl UnicodeEncodeError \<Rightarrow> write_sanitized sv pmid bibtex_entry st
      | Inl e \<Rightarrow> Inl e
      | Inr enriched \<Rightarrow>
          if \<not> write_raises sv (enriched @ [nl, nl]) then
            Inr (st\<lparr>bib_file := bib_file st @ [enriched @ [nl, nl]]\<rparr>)
          else write_sanitized sv pmid enriched st)"

text \<open>One iteration of \<^verbatim>\<open>for pmid in pbar\<close>.\<close>

definition process_pmid :: "services \<Rightarrow> string \<Rightarrow> run_state \<Rightarrow> exn + run_state" where
  "process_pmid sv pmid st =
     (let st1 = st\<lparr>pmid_file := pmid_file st @ [pmid @ [nl]]\<rparr> in
      case entrez_loop (pubmed_bib sv) 0 initial_wait_time None [] of
        Inl e \<Rightarrow> Inl e
      | Inr (bibtex_entry, waits) \<Rightarrow>
          (let st2 = st1\<lparr>slept := slept st1 @ waits\<rparr> in
           if \<not> opt_truthy bibtex_entry then
             (let st3 = st2\<lparr>entrez_fail_count := entrez_fail_count st2 + 1\<rparr> in
              case get_bibtex_via_crossref pmid of
                Inl e \<Rightarrow> Inl e
              | Inr bibtex_entry' \<Rightarrow>
                  if opt_truthy bibtex_entry' then write_entry sv pmid (the bibtex_entry') st3
                  else
                    Inr (st3\<lparr>crossref_fail_count := crossref_fail_count st3 + 1,
                            errors := errors st3 @
                              [''Failed to retrieve bibtex entry for PMID '' @ pmid @
                               '' via Entrez and Crossref.'']\<rparr>))
           else write_entry sv pmid (the bibtex_entry) st2))"

fun fetch_loop :: "(string \<times> services) list \<Rightarrow> run_state \<Rightarrow> exn + run_state" where
  "fetch_loop [] st = Inr st"
| "fetch_loop ((pmid, sv) # rest) st =
     (case process_pmid sv pmid st of
        Inl e \<Rightarrow> Inl e
      | Inr st' \<Rightarrow> fetch_loop rest st')"

definition initial_state :: run_state where
  "initial_state =
     \<lparr>bib_file = [], pmid_file = [], errors = [],
      entrez_fail_count = 0, crossref_fail_count = 0, slept = []\<rparr>"

text \<open>
  \<^verbatim>\<open>ref_gen\<close> from the citation counts on: the threshold filter, then the fetch loop over
  the kept identifiers, \<open>sv i\<close> being the surroundings of the \<open>i\<close>-th of them. The error log
  is written after the loop, from the final state.
\<close>

definition ref_gen :: "(string \<times> int option) list \<Rightarrow> int \<Rightarrow> (nat \<Rightarrow> services) \<Rightarrow> exn + run_state" where
  "ref_gen counted threshold sv =
     (let kept = fst (threshold_filter threshold counted) in
      fetch_loop (zip kept (map sv [0..<length kept])) initial_state)"

definition error_file :: "run_state \<Rightarrow> string list option" where
  "error_file st = (if errors st \<noteq> [] then Some (map (\<lambda>e. e @ [nl]) (errors st)) else None)"

section \<open>Example inputs\<close>

text \<open>Records and replies used to run the functions above on concrete inputs.\<close>

definition study_a_2021 :: entry where
  "study_a_2021 =
     [''ID'' \<mapsto> ''smith2021'', ''title'' \<mapsto> ''Study A'', ''year'' \<mapsto> ''2021'',
      ''pmid'' \<mapsto> ''555'']"

definition study_a_2019 :: entry where
  "study_a_2019 =
     [''ID'' \<mapsto> ''smith2019'', ''title'' \<mapsto> ''Study A'', ''year'' \<mapsto> ''2019'',
      ''pmid'' \<mapsto> ''555'']"

definition study_b_2019 :: entry where
  "study_b_2019 =
     [''ID'' \<mapsto> ''jones2019'', ''title'' \<mapsto> ''Study B'', ''year'' \<mapsto> ''2019'',
      ''pmid'' \<mapsto> ''555'']"

definition no_pmid_a :: entry where
  "no_pmid_a = [''ID'' \<mapsto> ''lee2019'', ''title'' \<mapsto> ''Paper One'', ''year'' \<mapsto> ''2019'']"

definition no_pmid_b :: entry where
  "no_pmid_b = [''ID'' \<mapsto> ''kim2021'', ''title'' \<mapsto> ''Paper Two'', ''year'' \<mapsto> ''2021'']"

definition empty_pmid_a :: entry where
  "empty_pmid_a =
     [''ID'' \<mapsto> ''lee2019'', ''title'' \<mapsto> ''Paper One'', ''year'' \<mapsto> ''2019'',
      ''pmid'' \<mapsto> []]"

definition empty_pmid_b :: entry where
  "empty_pmid_b =
     [''ID'' \<mapsto> ''kim2021'', ''title'' \<mapsto> ''Paper Two'', ''year'' \<mapsto> ''2021'',
      ''pmid'' \<mapsto> []]"

definition with_pmid_777 :: entry where
  "with_pmid_777 =
     [''ID'' \<mapsto> ''park2020'', ''title'' \<mapsto> ''Paper Three'', ''year'' \<mapsto> ''2020'',
      ''pmid'' \<mapsto> ''777'']"





text \<open>Surroundings in which the \<^verbatim>\<open>pubmed-bib\<close> tool fails on every call.\<close>

definition failing_services :: services where
  "failing_services =
     \<lparr>pubmed_bib = (\<lambda>n. Inl CalledProcessError),
      entrez_doi = Inr (404, Malformed), crossref_doi = Inr (404, NoItems),
      entrez_doi_retry = Inr (404, Malformed), crossref_doi_retry = Inr (404, NoItems),
      write_raises = (\<lambda>s. False), sanitize_bibtex = (\<lambda>s. s), encode_error_text = []\<rparr>"

section \<open>Properties of the citation counter\<close>

lemma range_three: "[0..<3] = [0, Suc 0, Suc (Suc 0)]"
  by (simp add: upt_rec numeral_eq_Suc)

lemma below_three: "k < 3 \<Longrightarrow> k = 0 \<or> k = Suc 0 \<or> k = Suc (Suc 0)"
  by arith

text \<open>
  Claim C5, as it fails. The service answers, but the answer is empty or no well-formed
  XML: \<^verbatim>\<open>Entrez.read\<close> raises a subclass of \<^verbatim>\<open>ValueError\<close>, which only the handler
  for \<^verbatim>\<open>Exception\<close> catches. The function returns the failure signal, not the count 0.
\<close>

theorem get_citations_unparsable_response:
  "get_citations (PyStr ''31452104'') (\<lambda>i. Inl ValueError)
      = (None, \<lparr>requests = 1, sleeps = []\<rparr>)
   \<and> fst (get_citations (PyStr ''31452104'') (\<lambda>i. Inl ValueError)) \<noteq> Some 0"
  by (simp add: get_citations_def get_citations_retries_def no_log_def range_three)

text \<open>
  Claim C5, amended. For a non-empty string identifier, \<^verbatim>\<open>get_citations\<close> issues at most
  three requests. Three HTTP errors in a row end in the failure signal \<open>None\<close> after two
  waits of 2 seconds. After \<open>k < 3\<close> HTTP errors (and \<open>k\<close> waits of 2 seconds), the outcome
  of request \<open>k\<close> is final and no further request is made: a parsed answer without link
  set, \<^verbatim>\<open>LinkSetDb\<close> or \<^verbatim>\<open>Link\<close>, or an \<^verbatim>\<open>IndexError\<close> or \<^verbatim>\<open>KeyError\<close>, gives the
  count 0; any other exception, among them the \<^verbatim>\<open>ValueError\<close> of an answer that cannot
  be parsed, gives \<open>None\<close>. The failure signal \<open>None\<close> differs from the count 0.
\<close>

theorem get_citations_retry_policy:
  assumes "s \<noteq> []"
  shows "((\<forall>i<3. elink i = Inl HTTPError) \<longrightarrow>
            get_citations (PyStr s) elink = (None, \<lparr>requests = 3, sleeps = [2, 2]\<rparr>))
       \<and> (k < 3 \<and> (\<forall>i<k. elink i = Inl HTTPError)
            \<and> (elink k = Inl IndexError \<or> elink k = Inl KeyError \<or> elink k = Inr []
                \<or> elink k = Inr (None # others) \<or> elink k = Inr (Some [] # others)
                \<or> elink k = Inr (Some (None # dbs) # others)) \<longrightarrow>
            get_citations (PyStr s) elink = (Some 0, \<lparr>requests = k + 1, sleeps = replicate k 2\<rparr>))
       \<and> (k < 3 \<and> (\<forall>i<k. elink i = Inl HTTPError) \<and> elink k = Inl e
            \<and> e \<notin> {HTTPError, IndexError, KeyError} \<longrightarrow>
            get_citations (PyStr s) elink = (None, \<lparr>requests = k + 1, sleeps = replicate k 2\<rparr>))
       \<and> fst (get_citations (PyStr s) (\<lambda>i. Inl HTTPError)) \<noteq> Some 0"
proof -
  have a: "get_citations (PyStr s) elink = (None, \<lparr>requests = 3, sleeps = [2, 2]\<rparr>)"
    if h: "\<forall>i<3. elink i = Inl HTTPError" for elink
  proof -
    have "elink 0 = Inl HTTPError" "elink (Suc 0) = Inl HTTPError"
         "elink (Suc (Suc 0)) = Inl HTTPError"
      using h by simp_all
    then show ?thesis using assms
      by (simp add: get_citations_def get_citations_retries_def no_log_def range_three)
  qed
  have b: "get_citations (PyStr s) elink = (Some 0, \<lparr>requests = k + 1, sleeps = replicate k 2\<rparr>)"
    if "k < 3" "\<forall>i<k. elink i = Inl HTTPError"
       "elink k = Inl IndexError \<or> elink k = Inl KeyError \<or> elink k = Inr []
          \<or> elink k = Inr (None # others) \<or> elink k = Inr (Some [] # others)
          \<or> elink k = Inr (Some (None # dbs) # others)"
    using that assms below_three[of k]
    by (auto simp: get_citations_def get_citations_retries_def no_log_def range_three
        count_links_def)
  have c: "get_citations (PyStr s) elink = (None, \<lparr>requests = k + 1, sleeps = replicate k 2\<rparr>)"
    if "k < 3" "\<forall>i<k. elink i = Inl HTTPError" "elink k = Inl e"
       "e \<notin> {HTTPError, IndexError, KeyError}"
    using that assms below_three[of k]
    by (cases e) (auto simp: get_citations_def get_citations_retries_def no_log_def range_three)
  have d: "fst (get_citations (PyStr s) (\<lambda>i. Inl HTTPError)) \<noteq> Some 0"
    using a[of "\<lambda>i. Inl HTTPError"] by simp
  show ?thesis using a b c d by blast
qed

theorem get_citations_retry_policy_witness:
  "''31452104'' \<noteq> []
   \<and> get_citations (PyStr ''31452104'') (\<lambda>i. Inl HTTPError)
       = (None, \<lparr>requests = 3, sleeps = [2, 2]\<rparr>)
   \<and> get_citations (PyStr ''31452104'') (\<lambda>i. if i = 0 then Inl HTTPError else Inl KeyError)
       = (Some 0, \<lparr>requests = 2, sleeps = [2]\<rparr>)
   \<and> get_citations (PyStr ''31452104'') (\<lambda>i. Inl OtherException)
       = (None, \<lparr>requests = 1, sleeps = []\<rparr>)
   \<and> get_citations (PyStr ''31452104'') (\<lambda>i. if i = 0 then Inl HTTPError else Inl ValueError)
       = (None, \<lparr>requests = 2, sleeps = [2]\<rparr>)"
  using get_citations_retry_policy [of "''31452104''" "\<lambda>i. Inl HTTPError" 0 "[]" "[]" HTTPError]
    get_citations_retry_policy [of "''31452104''" "\<lambda>i. if i = 0 then Inl HTTPError else Inl ValueError"
      "Suc 0" "[]" "[]" ValueError]
    get_citations_retry_policy [of "''31452104''" "\<lambda>i. if i = 0 then Inl HTTPError else Inl KeyError"
      "Suc 0" "[]" "[]" HTTPError]
    get_citations_retry_policy [of "''31452104''" "\<lambda>i. Inl OtherException" 0 "[]" "[]" OtherException]
  by simp

text \<open>
  Claim C9. For the empty string and for every value that is no string, \<^verbatim>\<open>get_citations\<close>
  returns the count 0, not the failure signal, whatever the retry bound and the service,
  with no request issued and no wait made.
\<close>

theorem get_citations_invalid_input:
  "pmid = PyStr [] \<or> \<not> is_str pmid \<Longrightarrow>
     get_citations pmid elink = (Some 0, \<lparr>requests = 0, sleeps = []\<rparr>)
     \<and> get_citations_retries pmid n elink = (Some 0, \<lparr>requests = 0, sleeps = []\<rparr>)"
  by (cases pmid) (auto simp: get_citations_def get_citations_retries_def no_log_def)

theorem get_citations_invalid_input_witness:
  "get_citations (PyStr []) (\<lambda>i. Inr [Some [Some [''1'', ''2'']]])
      = (Some 0, \<lparr>requests = 0, sleeps = []\<rparr>)
   \<and> get_citations PyNone (\<lambda>i. Inr [Some [Some [''1'', ''2'']]])
      = (Some 0, \<lparr>requests = 0, sleeps = []\<rparr>)
   \<and> get_citations (PyInt 31452104) (\<lambda>i. Inr [Some [Some [''1'', ''2'']]])
      = (Some 0, \<lparr>requests = 0, sleeps = []\<rparr>)
   \<and> get_citations (PyStr ''31452104'') (\<lambda>i. Inr [Some [Some [''1'', ''2'']]])
      = (Some 2, \<lparr>requests = 1, sleeps = []\<rparr>)"
  using get_citations_invalid_input [of "PyStr []" "\<lambda>i. Inr [Some [Some [''1'', ''2'']]]" 3]
    get_citations_invalid_input [of PyNone "\<lambda>i. Inr [Some [Some [''1'', ''2'']]]" 3]
    get_citations_invalid_input [of "PyInt 31452104" "\<lambda>i. Inr [Some [Some [''1'', ''2'']]]" 3]
  by (simp add: get_citations_def get_citations_retries_def no_log_def range_three count_links_def)

section \<open>Properties of the threshold filter\<close>

lemma threshold_loop_filter:
  "threshold_loop t ps (kept, sub) =
     (kept @ map fst (filter (passes t) ps), sub @ map fst (filter (\<lambda>p. \<not> passes t p) ps))"
  by (induction ps arbitrary: kept sub) (auto simp: passes_def split: option.splits)

lemma threshold_filter_eq:
  "threshold_filter t ps =
     (map fst (filter (passes t) ps), map fst (filter (\<lambda>p. \<not> passes t p) ps))"
  by (simp add: threshold_filter_def threshold_loop_filter)

lemma mset_filter_split:
  "mset (map fst (filter P ps)) + mset (map fst (filter (\<lambda>p. \<not> P p) ps)) = mset (map fst ps)"
  by (induction ps) auto

text \<open>
  Claim C4, as it fails. An identifier listed twice, counted once and failed once, is in
  both lists, so the two lists of identifiers are not disjoint.
\<close>

theorem threshold_filter_overlap:
  "set (fst (threshold_filter 10 [(''1001'', Some 15), (''1001'', None)]))
     \<inter> set (snd (threshold_filter 10 [(''1001'', Some 15), (''1001'', None)])) \<noteq> {}"
  by (simp add: threshold_filter_def)

text \<open>
  Claim C4, amended. For every list of pairs and every threshold, the kept list holds, in
  input order, the identifiers of the pairs whose count is determined and at least the
  threshold, and the rejected list those of all other pairs; a pair with the failure
  signal always puts its identifier in the rejected list; the two lists together hold
  every input identifier as often as the input does. When the input identifiers are
  pairwise distinct, the two lists are disjoint and an identifier is kept iff its count is
  determined and at least the threshold.
\<close>

theorem threshold_filter_partition:
  "fst (threshold_filter t ps) = map fst (filter (passes t) ps)
   \<and> snd (threshold_filter t ps) = map fst (filter (\<lambda>p. \<not> passes t p) ps)
   \<and> (\<forall>p. (p, None) \<in> set ps \<longrightarrow> p \<in> set (snd (threshold_filter t ps)))
   \<and> mset (fst (threshold_filter t ps)) + mset (snd (threshold_filter t ps)) = mset (map fst ps)
   \<and> (distinct (map fst ps) \<longrightarrow>
        set (fst (threshold_filter t ps)) \<inter> set (snd (threshold_filter t ps)) = {}
        \<and> (\<forall>p c. (p, c) \<in> set ps \<longrightarrow>
              (p \<in> set (fst (threshold_filter t ps))) = (\<exists>n. c = Some n \<and> t \<le> n)))"
proof -
  have none: "\<forall>p. (p, None) \<in> set ps \<longrightarrow> p \<in> set (map fst (filter (\<lambda>p. \<not> passes t p) ps))"
    by (force simp: passes_def)
  have dis: "set (map fst (filter (passes t) ps))
               \<inter> set (map fst (filter (\<lambda>p. \<not> passes t p) ps)) = {}"
    if d: "distinct (map fst ps)"
  proof -
    have "\<And>a b c. (a, b) \<in> set ps \<Longrightarrow> (a, c) \<in> set ps \<Longrightarrow> b = c"
      using d by (meson eq_key_imp_eq_value)
    then show ?thesis by fastforce
  qed
  have iff: "\<forall>p c. (p, c) \<in> set ps \<longrightarrow>
              (p \<in> set (map fst (filter (passes t) ps))) = (\<exists>n. c = Some n \<and> t \<le> n)"
    if d: "distinct (map fst ps)"
  proof -
    have u: "\<And>a b c. (a, b) \<in> set ps \<Longrightarrow> (a, c) \<in> set ps \<Longrightarrow> b = c"
      using d by (meson eq_key_imp_eq_value)
    show ?thesis
    proof (intro allI impI)
      fix p c assume pc: "(p, c) \<in> set ps"
      show "(p \<in> set (map fst (filter (passes t) ps))) = (\<exists>n. c = Some n \<and> t \<le> n)"
      proof
        assume "p \<in> set (map fst (filter (passes t) ps))"
        then obtain c' where "(p, c') \<in> set ps" "passes t (p, c')" by auto
        with u pc have "passes t (p, c)" by blast
        then show "\<exists>n. c = Some n \<and> t \<le> n" by (auto simp: passes_def split: option.splits)
      next
        assume "\<exists>n. c = Some n \<and> t \<le> n"
        then have "passes t (p, c)" by (auto simp: passes_def)
        with pc show "p \<in> set (map fst (filter (passes t) ps))" by force
      qed
    qed
  qed
  show ?thesis
    unfolding threshold_filter_eq fst_conv snd_conv
    using none dis iff mset_filter_split[of "passes t" ps] by blast
qed

theorem threshold_filter_partition_witness:
  "distinct (map fst [(''1001'', Some (15::int)), (''1002'', Some 3), (''1003'', None)])
   \<and> threshold_filter 10 [(''1001'', Some 15), (''1002'', Some 3), (''1003'', None)]
       = ([''1001''], [''1002'', ''1003''])
   \<and> set (fst (threshold_filter 10 [(''1001'', Some 15), (''1002'', Some 3), (''1003'', None)]))
       \<inter> set (snd (threshold_filter 10 [(''1001'', Some 15), (''1002'', Some 3), (''1003'', None)]))
       = {}"
  using threshold_filter_partition [of 10 "[(''1001'', Some 15), (''1002'', Some 3), (''1003'', None)]"]
  by (simp add: threshold_filter_def passes_def)

section \<open>Properties of duplicate resolution\<close>

subsection \<open>Grouping\<close>

lemma dict_append_keys: "map fst (dict_append g k e) = map fst g"
  by (induction g) (auto simp: dict_append_def)

lemma dict_append_other: "k \<notin> set (map fst g) \<Longrightarrow> dict_append g k e = g"
  by (induction g) (auto simp: dict_append_def)

lemma add_entry_keys:
  "map fst (add_entry g e) =
     (if e ''pmid'' \<in> set (map fst g) then map fst g else map fst g @ [e ''pmid''])"
  by (simp add: add_entry_def Let_def dict_append_keys)

lemma add_entry_new:
  "e ''pmid'' \<notin> set (map fst g) \<Longrightarrow> add_entry g e = g @ [(e ''pmid'', [e])]"
  by (simp add: add_entry_def Let_def dict_append_def) (simp add: dict_append_other[unfolded dict_append_def])

lemma add_entry_members:
  assumes "\<forall>(k, es)\<in>set g. es \<noteq> [] \<and> (\<forall>x\<in>set es. x ''pmid'' = k)"
  shows "\<forall>(k, es)\<in>set (add_entry g e). es \<noteq> [] \<and> (\<forall>x\<in>set es. x ''pmid'' = k)"
  using assms by (fastforce simp: add_entry_def Let_def dict_append_def split: if_splits)

lemma add_entry_subset:
  assumes "\<forall>(k, es)\<in>set g. set es \<subseteq> A"
  shows "\<forall>(k, es)\<in>set (add_entry g e). set es \<subseteq> insert e A"
  using assms by (fastforce simp: add_entry_def Let_def dict_append_def split: if_splits)

lemma foldl_add_entry_subset:
  assumes "\<forall>(k, es)\<in>set g. set es \<subseteq> A"
  shows "\<forall>(k, es)\<in>set (foldl add_entry g xs). set es \<subseteq> A \<union> set xs"
  using assms
proof (induction xs arbitrary: g A)
  case Nil then show ?case by simp
next
  case (Cons x xs)
  have "\<forall>(k, es)\<in>set (foldl add_entry (add_entry g x) xs). set es \<subseteq> insert x A \<union> set xs"
    by (rule Cons.IH[OF add_entry_subset[OF Cons.prems]])
  then show ?case by simp
qed

lemma group_by_pmid_subset: "\<forall>(k, es)\<in>set (group_by_pmid xs). set es \<subseteq> set xs"
  unfolding group_by_pmid_def using foldl_add_entry_subset[of "[]" "{}" xs] by simp

lemma foldl_add_entry_keys_distinct:
  "distinct (map fst g) \<Longrightarrow> distinct (map fst (foldl add_entry g xs))"
  by (induction xs arbitrary: g) (auto simp: add_entry_keys)

lemma foldl_add_entry_keys_set:
  "set (map fst (foldl add_entry g xs)) = set (map fst g) \<union> (\<lambda>x. x ''pmid'') ` set xs"
proof (induction xs arbitrary: g)
  case Nil then show ?case by simp
next
  case (Cons x xs)
  show ?case unfolding foldl_Cons Cons.IH add_entry_keys by auto
qed

lemma foldl_add_entry_members:
  assumes "\<forall>(k, es)\<in>set g. es \<noteq> [] \<and> (\<forall>x\<in>set es. x ''pmid'' = k)"
  shows "\<forall>(k, es)\<in>set (foldl add_entry g xs). es \<noteq> [] \<and> (\<forall>x\<in>set es. x ''pmid'' = k)"
  using assms
proof (induction xs arbitrary: g)
  case Nil then show ?case by simp
next
  case (Cons x xs)
  show ?case using Cons.IH[OF add_entry_members[OF Cons.prems]] by simp
qed

lemma group_by_pmid_members:
  "\<forall>(k, es)\<in>set (group_by_pmid xs). es \<noteq> [] \<and> (\<forall>x\<in>set es. x ''pmid'' = k)"
  unfolding group_by_pmid_def by (rule foldl_add_entry_members) simp

lemma group_by_pmid_keys_distinct: "distinct (map fst (group_by_pmid xs))"
  unfolding group_by_pmid_def by (rule foldl_add_entry_keys_distinct) simp

lemma group_by_pmid_keys_set: "set (map fst (group_by_pmid xs)) = (\<lambda>x. x ''pmid'') ` set xs"
  unfolding group_by_pmid_def foldl_add_entry_keys_set by simp

lemma length_group_by_pmid: "length (group_by_pmid xs) = card ((\<lambda>x. x ''pmid'') ` set xs)"
proof -
  have "length (group_by_pmid xs) = length (map fst (group_by_pmid xs))" by simp
  also have "\<dots> = card (set (map fst (group_by_pmid xs)))"
    using group_by_pmid_keys_distinct by (metis distinct_card)
  finally show ?thesis by (simp only: group_by_pmid_keys_set)
qed

lemma first_of_member: "first_of xs = Inr r \<Longrightarrow> r \<in> set xs"
  by (auto simp: first_of_def split: list.splits)

lemma sorted_by_year_set: "sorted_by_year es = Inr s \<Longrightarrow> set s = set es"
  by (auto simp: sorted_by_year_def split: if_splits)

lemma earliest_year_member: "earliest_year es = Inr r \<Longrightarrow> r \<in> set es"
  by (auto simp: earliest_year_def split: sum.splits dest: sorted_by_year_set first_of_member)

lemma resolve_group_member: "resolve_group f k es = Inr r \<Longrightarrow> r \<in> set es"
  by (auto simp: resolve_group_def Let_def split: if_splits sum.splits
      dest: earliest_year_member first_of_member)

lemma resolve_all_length: "resolve_all f g = Inr out \<Longrightarrow> length out = length g"
  by (induction g arbitrary: out) (auto split: sum.splits)

lemma resolve_all_subset:
  assumes "\<forall>(k, es)\<in>set g. set es \<subseteq> A" "resolve_all f g = Inr out"
  shows "set out \<subseteq> A"
  using assms
proof (induction g arbitrary: out)
  case Nil then show ?case by simp
next
  case (Cons a g)
  obtain k es where a: "a = (k, es)" by (cases a)
  from Cons.prems(2) a obtain r rs where
    r: "resolve_group f k es = Inr r" and rs: "resolve_all f g = Inr rs" and out: "out = r # rs"
    by (auto split: sum.splits)
  have "r \<in> A" using resolve_group_member[OF r] Cons.prems(1) a by auto
  moreover have "set rs \<subseteq> A" using Cons.IH rs Cons.prems(1) by simp
  ultimately show ?case using out by simp
qed

lemma resolve_all_keys:
  assumes "\<forall>(k, es)\<in>set g. \<forall>x\<in>set es. x ''pmid'' = k" "resolve_all f g = Inr out"
  shows "map (\<lambda>x. x ''pmid'') out = map fst g"
  using assms
proof (induction g arbitrary: out)
  case Nil then show ?case by simp
next
  case (Cons a g)
  obtain k es where a: "a = (k, es)" by (cases a)
  from Cons.prems(2) a obtain r rs where
    r: "resolve_group f k es = Inr r" and rs: "resolve_all f g = Inr rs" and out: "out = r # rs"
    by (auto split: sum.splits)
  have "r ''pmid'' = k" using resolve_group_member[OF r] Cons.prems(1) a by auto
  moreover have "map (\<lambda>x. x ''pmid'') rs = map fst g" using Cons.IH rs Cons.prems(1) by simp
  ultimately show ?case using a out by simp
qed

lemma foldl_add_entry_fresh:
  assumes "distinct (map (\<lambda>x. x ''pmid'') xs)" "set (map fst g) \<inter> (\<lambda>x. x ''pmid'') ` set xs = {}"
  shows "foldl add_entry g xs = g @ map (\<lambda>x. (x ''pmid'', [x])) xs"
  using assms
proof (induction xs arbitrary: g)
  case Nil then show ?case by simp
next
  case (Cons x xs)
  have fresh: "x ''pmid'' \<notin> set (map fst g)" using Cons.prems(2) by auto
  have step: "add_entry g x = g @ [(x ''pmid'', [x])]" using fresh by (simp add: add_entry_new)
  have "set (map fst (g @ [(x ''pmid'', [x])])) \<inter> (\<lambda>x. x ''pmid'') ` set xs = {}"
    using Cons.prems by auto
  then have "foldl add_entry (g @ [(x ''pmid'', [x])]) xs
               = (g @ [(x ''pmid'', [x])]) @ map (\<lambda>x. (x ''pmid'', [x])) xs"
    using Cons.IH Cons.prems(1) by simp
  then show ?case using step by simp
qed

lemma group_by_pmid_distinct:
  "distinct (map (\<lambda>x. x ''pmid'') xs) \<Longrightarrow> group_by_pmid xs = map (\<lambda>x. (x ''pmid'', [x])) xs"
  unfolding group_by_pmid_def using foldl_add_entry_fresh[of xs "[]"] by simp

lemma resolve_all_singletons: "resolve_all f (map (\<lambda>x. (x ''pmid'', [x])) xs) = Inr xs"
  by (induction xs) (auto simp: resolve_group_def first_of_def)

lemma remove_duplicates_keys:
  assumes "remove_duplicates f xs = Inr out"
  shows "distinct (map (\<lambda>x. x ''pmid'') out)" "set out \<subseteq> set xs"
        "length out = card ((\<lambda>x. x ''pmid'') ` set xs)"
proof -
  have r: "resolve_all f (group_by_pmid xs) = Inr out" using assms by (simp add: remove_duplicates_def)
  have m: "\<forall>(k, es)\<in>set (group_by_pmid xs). \<forall>x\<in>set es. x ''pmid'' = k"
    using group_by_pmid_members[of xs] by fastforce
  have "map (\<lambda>x. x ''pmid'') out = map fst (group_by_pmid xs)" by (rule resolve_all_keys[OF m r])
  then show "distinct (map (\<lambda>x. x ''pmid'') out)" by (simp add: group_by_pmid_keys_distinct)
  show "length out = card ((\<lambda>x. x ''pmid'') ` set xs)"
    using resolve_all_length[OF r] length_group_by_pmid by simp
  show "set out \<subseteq> set xs" by (rule resolve_all_subset[OF group_by_pmid_subset r])
qed

subsection \<open>The choice within a group\<close>

lemma first_match_index:
  "filter P xs \<noteq> [] \<Longrightarrow>
     \<exists>i<length xs. hd (filter P xs) = xs ! i \<and> P (xs ! i) \<and> (\<forall>j<i. \<not> P (xs ! j))"
proof (induction xs)
  case Nil then show ?case by simp
next
  case (Cons x xs)
  show ?case
  proof (cases "P x")
    case True
    then have "hd (filter P (x # xs)) = (x # xs) ! 0 \<and> P ((x # xs) ! 0) \<and> (\<forall>j<0. \<not> P ((x # xs) ! j))"
      by simp
    then show ?thesis by blast
  next
    case False
    then have "filter P xs \<noteq> []" using Cons.prems by simp
    then obtain i where i: "i < length xs" "hd (filter P xs) = xs ! i" "P (xs ! i)"
      "\<forall>j<i. \<not> P (xs ! j)" using Cons.IH by blast
    have "\<forall>j<Suc i. \<not> P ((x # xs) ! j)"
      using False i(4) by (auto simp: nth_Cons split: nat.splits)
    then have "Suc i < length (x # xs) \<and> hd (filter P (x # xs)) = (x # xs) ! Suc i
        \<and> P ((x # xs) ! Suc i) \<and> (\<forall>j<Suc i. \<not> P ((x # xs) ! j))"
      using False i by simp
    then show ?thesis by blast
  qed
qed

lemma hd_insort_key:
  "hd (insort_key f x ys) = (if ys = [] \<or> f x \<le> f (hd ys) then x else hd ys)"
  by (cases ys) auto

lemma sort_key_nonempty: "sort_key f xs = [] \<longleftrightarrow> xs = []"
  by (metis length_sort list.size(3) length_0_conv)

lemma hd_sort_key_index:
  fixes f :: "'a \<Rightarrow> 'b::linorder"
  shows "xs \<noteq> [] \<Longrightarrow>
     \<exists>i<length xs. hd (sort_key f xs) = xs ! i \<and> (\<forall>j<length xs. f (xs ! i) \<le> f (xs ! j))
        \<and> (\<forall>j<i. f (xs ! i) < f (xs ! j))"
proof (induction xs)
  case Nil then show ?case by simp
next
  case (Cons x xs)
  show ?case
  proof (cases "xs = []")
    case True
    then have "hd (sort_key f (x # xs)) = (x # xs) ! 0
        \<and> (\<forall>j<length (x # xs). f ((x # xs) ! 0) \<le> f ((x # xs) ! j))
        \<and> (\<forall>j<0. f ((x # xs) ! 0) < f ((x # xs) ! j))" by simp
    then show ?thesis by blast
  next
    case False
    then obtain i where i: "i < length xs" "hd (sort_key f xs) = xs ! i"
      "\<forall>j<length xs. f (xs ! i) \<le> f (xs ! j)" "\<forall>j<i. f (xs ! i) < f (xs ! j)"
      using Cons.IH by blast
    have ne: "sort_key f xs \<noteq> []" using False by (simp add: sort_key_nonempty)
    have hd: "hd (sort_key f (x # xs)) = (if f x \<le> f (xs ! i) then x else xs ! i)"
      using ne i(2) by (simp add: hd_insort_key)
    show ?thesis
    proof (cases "f x \<le> f (xs ! i)")
      case True
      have "\<forall>j<length (x # xs). f x \<le> f ((x # xs) ! j)"
        using True i(3) by (auto simp: nth_Cons split: nat.splits)
      then have "0 < length (x # xs) \<and> hd (sort_key f (x # xs)) = (x # xs) ! 0
        \<and> (\<forall>j<length (x # xs). f ((x # xs) ! 0) \<le> f ((x # xs) ! j))
        \<and> (\<forall>j<0. f ((x # xs) ! 0) < f ((x # xs) ! j))"
        using hd True by simp
      then show ?thesis by blast
    next
      case False
      then have lt: "f (xs ! i) < f x" by simp
      have a: "\<forall>j<length (x # xs). f (xs ! i) \<le> f ((x # xs) ! j)"
        using lt i(3) by (auto simp: nth_Cons split: nat.splits)
      have b: "\<forall>j<Suc i. f (xs ! i) < f ((x # xs) ! j)"
        using lt i(4) by (auto simp: nth_Cons split: nat.splits)
      have "Suc i < length (x # xs) \<and> hd (sort_key f (x # xs)) = (x # xs) ! Suc i
        \<and> (\<forall>j<length (x # xs). f ((x # xs) ! Suc i) \<le> f ((x # xs) ! j))
        \<and> (\<forall>j<Suc i. f ((x # xs) ! Suc i) < f ((x # xs) ! j))"
        using hd False a b i(1) by simp
      then show ?thesis by blast
    qed
  qed
qed

lemma first_of_hd: "xs \<noteq> [] \<Longrightarrow> first_of xs = Inr (hd xs)"
  by (cases xs) (auto simp: first_of_def)

lemma earliest_year_index:
  assumes "2 \<le> length es" "\<forall>i<length es. (es ! i) ''year'' \<noteq> None"
  shows "\<exists>i<length es. earliest_year es = Inr (es ! i)
      \<and> (\<forall>j<length es. the ((es ! i) ''year'') \<le> the ((es ! j) ''year''))
      \<and> (\<forall>j<i. the ((es ! i) ''year'') < the ((es ! j) ''year''))"
proof -
  have ne: "es \<noteq> []" using assms(1) by auto
  have "None \<notin> set (map (\<lambda>x. x ''year'') es)"
  proof
    assume "None \<in> set (map (\<lambda>x. x ''year'') es)"
    then obtain i where "i < length es" "(es ! i) ''year'' = None"
      by (auto simp: in_set_conv_nth)
    then show False using assms(2) by blast
  qed
  then have "sorted_by_year es = Inr (sort_key (\<lambda>x. the (x ''year'')) es)"
    using assms(1) by (simp add: sorted_by_year_def)
  then have "earliest_year es = Inr (hd (sort_key (\<lambda>x. the (x ''year'')) es))"
    using ne by (simp add: earliest_year_def first_of_hd sort_key_nonempty)
  then show ?thesis using hd_sort_key_index[OF ne, of "\<lambda>x. the (x ''year'')"] by auto
qed

subsection \<open>The example records\<close>

lemma study_a_2021_fields:
  "study_a_2021 ''pmid'' = Some ''555''" "study_a_2021 ''title'' = Some ''Study A''"
  "study_a_2021 ''year'' = Some ''2021''"
  by (simp_all add: study_a_2021_def)

lemma study_a_2019_fields:
  "study_a_2019 ''pmid'' = Some ''555''" "study_a_2019 ''title'' = Some ''Study A''"
  "study_a_2019 ''year'' = Some ''2019''"
  by (simp_all add: study_a_2019_def)

lemma study_b_2019_fields:
  "study_b_2019 ''pmid'' = Some ''555''" "study_b_2019 ''title'' = Some ''Study B''"
  "study_b_2019 ''year'' = Some ''2019''"
  by (simp_all add: study_b_2019_def)

lemma no_pmid_a_fields:
  "no_pmid_a ''pmid'' = None" "no_pmid_a ''title'' = Some ''Paper One''"
  "no_pmid_a ''year'' = Some ''2019''"
  by (simp_all add: no_pmid_a_def)

lemma no_pmid_b_fields:
  "no_pmid_b ''pmid'' = None" "no_pmid_b ''title'' = Some ''Paper Two''"
  "no_pmid_b ''year'' = Some ''2021''"
  by (simp_all add: no_pmid_b_def)

lemma empty_pmid_a_fields:
  "empty_pmid_a ''pmid'' = Some []" "empty_pmid_a ''title'' = Some ''Paper One''"
  "empty_pmid_a ''year'' = Some ''2019''"
  by (simp_all add: empty_pmid_a_def)

lemma empty_pmid_b_fields:
  "empty_pmid_b ''pmid'' = Some []" "empty_pmid_b ''title'' = Some ''Paper Two''"
  "empty_pmid_b ''year'' = Some ''2021''"
  by (simp_all add: empty_pmid_b_def)

lemma with_pmid_777_fields:
  "with_pmid_777 ''pmid'' = Some ''777''" "with_pmid_777 ''title'' = Some ''Paper Three''"
  "with_pmid_777 ''year'' = Some ''2020''"
  by (simp_all add: with_pmid_777_def)

lemma differ_by_field: "a k \<noteq> b k \<Longrightarrow> a \<noteq> b"
  by auto

lemma group_no_pmid:
  "group_by_pmid [no_pmid_a, no_pmid_b] = [(None, [no_pmid_a, no_pmid_b])]"
  by (simp add: group_by_pmid_def add_entry_def dict_append_def Let_def
      no_pmid_a_fields no_pmid_b_fields)

lemma group_empty_pmid:
  "group_by_pmid [empty_pmid_a, empty_pmid_b, with_pmid_777]
     = [(Some [], [empty_pmid_a, empty_pmid_b]), (Some ''777'', [with_pmid_777])]"
  by (simp add: group_by_pmid_def add_entry_def dict_append_def Let_def
      empty_pmid_a_fields empty_pmid_b_fields with_pmid_777_fields)

lemma group_study_a:
  "group_by_pmid [study_a_2021, study_a_2019] = [(Some ''555'', [study_a_2021, study_a_2019])]"
  by (simp add: group_by_pmid_def add_entry_def dict_append_def Let_def
      study_a_2021_fields study_a_2019_fields)

lemma resolve_pair_cases:
  assumes "a ''year'' = Some ya" "b ''year'' = Some yb"
  shows "resolve_group efetch k [a, b] = Inr a \<or> resolve_group efetch k [a, b] = Inr b
       \<or> (\<exists>e. resolve_group efetch k [a, b] = Inl e)"
proof (cases "efetch k")
  case (Inl e)
  then show ?thesis by (simp add: resolve_group_def fetch_title_from_biopython_def)
next
  case (Inr t)
  have y: "earliest_year [a, b] = Inr a \<or> earliest_year [a, b] = Inr b"
    using assms by (simp add: earliest_year_def sorted_by_year_def first_of_def)
  show ?thesis using Inr y
    by (auto simp: resolve_group_def fetch_title_from_biopython_def opt_truthy_def first_of_def
        Let_def)
qed

subsection \<open>Records without a PMID\<close>

text \<open>
  Claim C1, where the code departs from it. Two records without a \<^verbatim>\<open>pmid\<close> field both get
  the dictionary key \<^verbatim>\<open>None\<close> and form one group of size two, not two singleton groups.
  Whatever the title lookup answers for the key \<^verbatim>\<open>None\<close>, the call then keeps one of the
  two records only, or ends in the exception of the lookup: it never returns both.
\<close>

theorem missing_pmid_records_merged:
  "no_pmid_a ''pmid'' = None \<and> no_pmid_b ''pmid'' = None \<and> no_pmid_a \<noteq> no_pmid_b
   \<and> group_by_pmid [no_pmid_a, no_pmid_b] = [(None, [no_pmid_a, no_pmid_b])]
   \<and> (remove_duplicates efetch [no_pmid_a, no_pmid_b] = Inr [no_pmid_a]
        \<or> remove_duplicates efetch [no_pmid_a, no_pmid_b] = Inr [no_pmid_b]
        \<or> (\<exists>e. remove_duplicates efetch [no_pmid_a, no_pmid_b] = Inl e))"
proof -
  have d: "no_pmid_a \<noteq> no_pmid_b"
    by (rule differ_by_field[of _ "''year''"]) (simp add: no_pmid_a_fields no_pmid_b_fields)
  have r: "resolve_group efetch None [no_pmid_a, no_pmid_b] = Inr no_pmid_a
       \<or> resolve_group efetch None [no_pmid_a, no_pmid_b] = Inr no_pmid_b
       \<or> (\<exists>e. resolve_group efetch None [no_pmid_a, no_pmid_b] = Inl e)"
    using resolve_pair_cases[of no_pmid_a "''2019''" no_pmid_b "''2021''" efetch None]
    by (simp add: no_pmid_a_fields no_pmid_b_fields)
  have "remove_duplicates efetch [no_pmid_a, no_pmid_b] = Inr [no_pmid_a]
        \<or> remove_duplicates efetch [no_pmid_a, no_pmid_b] = Inr [no_pmid_b]
        \<or> (\<exists>e. remove_duplicates efetch [no_pmid_a, no_pmid_b] = Inl e)"
    using r by (auto simp: remove_duplicates_def group_no_pmid)
  then show ?thesis using d group_no_pmid no_pmid_a_fields(1) no_pmid_b_fields(1) by simp
qed

subsection \<open>Size of the result\<close>

text \<open>
  When the call returns, it returns one record per distinct value of
  \<^verbatim>\<open>entry.get('pmid')\<close>, the values \<^verbatim>\<open>None\<close> and the empty string among them.
\<close>

lemma remove_duplicates_size:
  assumes "remove_duplicates f xs = Inr out"
  shows "length out \<le> length xs"
    and "length out = length xs \<longleftrightarrow> distinct (map (\<lambda>x. x ''pmid'') xs)"
proof -
  have l: "length out = card (set (map (\<lambda>x. x ''pmid'') xs))"
    using remove_duplicates_keys(3)[OF assms] by simp
  show "length out \<le> length xs"
    unfolding l using card_length[of "map (\<lambda>x. x ''pmid'') xs"] by simp
  show "length out = length xs \<longleftrightarrow> distinct (map (\<lambda>x. x ''pmid'') xs)"
    unfolding l using card_distinct[of "map (\<lambda>x. x ''pmid'') xs"]
      distinct_card[of "map (\<lambda>x. x ''pmid'') xs"] by auto
qed

text \<open>
  Claim C6, where the code departs from it. In a record set of three whose only non-empty
  PMID is \<^verbatim>\<open>777\<close>, the non-empty PMID values are pairwise distinct, but the two records
  with an empty PMID share the dictionary key of the empty string: the result has two
  records, not three, or the call ends in the exception of the title lookup.
\<close>

theorem empty_pmid_records_reduce_size:
  "filter opt_truthy (map (\<lambda>x. x ''pmid'') [empty_pmid_a, empty_pmid_b, with_pmid_777])
      = [Some ''777'']
   \<and> length [empty_pmid_a, empty_pmid_b, with_pmid_777] = 3
   \<and> (remove_duplicates efetch [empty_pmid_a, empty_pmid_b, with_pmid_777]
          = Inr [empty_pmid_a, with_pmid_777]
        \<or> remove_duplicates efetch [empty_pmid_a, empty_pmid_b, with_pmid_777]
          = Inr [empty_pmid_b, with_pmid_777]
        \<or> (\<exists>e. remove_duplicates efetch [empty_pmid_a, empty_pmid_b, with_pmid_777] = Inl e))"
proof -
  have r: "resolve_group efetch (Some []) [empty_pmid_a, empty_pmid_b] = Inr empty_pmid_a
       \<or> resolve_group efetch (Some []) [empty_pmid_a, empty_pmid_b] = Inr empty_pmid_b
       \<or> (\<exists>e. resolve_group efetch (Some []) [empty_pmid_a, empty_pmid_b] = Inl e)"
    using resolve_pair_cases[of empty_pmid_a "''2019''" empty_pmid_b "''2021''" efetch "Some []"]
    by (simp add: empty_pmid_a_fields empty_pmid_b_fields)
  have s: "resolve_group efetch (Some ''777'') [with_pmid_777] = Inr with_pmid_777"
    by (simp add: resolve_group_def first_of_def)
  have "remove_duplicates efetch [empty_pmid_a, empty_pmid_b, with_pmid_777]
          = Inr [empty_pmid_a, with_pmid_777]
        \<or> remove_duplicates efetch [empty_pmid_a, empty_pmid_b, with_pmid_777]
          = Inr [empty_pmid_b, with_pmid_777]
        \<or> (\<exists>e. remove_duplicates efetch [empty_pmid_a, empty_pmid_b, with_pmid_777] = Inl e)"
    using r s by (auto simp: remove_duplicates_def group_empty_pmid)
  moreover have
    "filter opt_truthy (map (\<lambda>x. x ''pmid'') [empty_pmid_a, empty_pmid_b, with_pmid_777])
      = [Some ''777'']"
    by (simp add: opt_truthy_def empty_pmid_a_fields empty_pmid_b_fields with_pmid_777_fields)
  ultimately show ?thesis by simp
qed

subsection \<open>Idempotence\<close>

text \<open>
  Claim C7. Whenever duplicate resolution returns a record set, resolving that set again
  returns it unchanged, whatever the title lookup answers the second time: the returned
  records have pairwise distinct keys, so every group is a singleton and no lookup is made.
\<close>

theorem remove_duplicates_idempotent:
  "remove_duplicates f xs = Inr out \<Longrightarrow> remove_duplicates g out = Inr out"
  using remove_duplicates_keys(1)[of f xs out]
  by (simp add: remove_duplicates_def[of g] group_by_pmid_distinct resolve_all_singletons)

theorem remove_duplicates_idempotent_witness:
  "remove_duplicates (\<lambda>p. Inr ''Study A'') [study_a_2021, study_a_2019] = Inr [study_a_2021]
   \<and> remove_duplicates (\<lambda>p. Inl HTTPError) [study_a_2021] = Inr [study_a_2021]"
proof -
  have a: "remove_duplicates (\<lambda>p. Inr ''Study A'') [study_a_2021, study_a_2019]
             = Inr [study_a_2021]"
    by (simp add: remove_duplicates_def group_study_a resolve_group_def
        fetch_title_from_biopython_def opt_truthy_def first_of_def
        study_a_2021_fields study_a_2019_fields)
  show ?thesis
    using a remove_duplicates_idempotent [OF a, of "\<lambda>p. Inl HTTPError"] by simp
qed

subsection \<open>The record kept for a group\<close>

text \<open>
  Claim C2, as it fails. Both members of the group carry the title the lookup returns, so
  more than one member matches; the code keeps the first of them, the record of 2021,
  although the other member has the earlier year 2019.
\<close>

theorem resolve_group_keeps_first_match:
  "resolve_group (\<lambda>p. Inr ''Study A'') (Some ''555'') [study_a_2021, study_a_2019]
      = Inr study_a_2021
   \<and> study_a_2021 ''title'' = Some ''Study A'' \<and> study_a_2019 ''title'' = Some ''Study A''
   \<and> the (study_a_2019 ''year'') < the (study_a_2021 ''year'')
   \<and> study_a_2021 \<noteq> study_a_2019"
proof -
  have d: "study_a_2021 \<noteq> study_a_2019"
    by (rule differ_by_field[of _ "''year''"]) (simp add: study_a_2021_fields study_a_2019_fields)
  show ?thesis using d
    by (simp add: resolve_group_def fetch_title_from_biopython_def opt_truthy_def first_of_def
        study_a_2021_fields study_a_2019_fields)
qed

text \<open>
  Claim C2, amended. For a group of two or more records whose title lookup returns
  without an exception: if the returned title is not empty and at least one member's
  title equals it, the first such member in group order is kept, also when several
  members match; if the returned title is empty or no member's title equals it, and every
  member has a year field, the kept member has the least year string in the order of
  strings, and it is the first member in group order with that year.
\<close>

theorem resolve_group_choice:
  assumes "2 \<le> length es" and "efetch pmid = Inr title"
  shows "(title \<noteq> [] \<and> (\<exists>i<length es. (es ! i) ''title'' = Some title) \<longrightarrow>
            (\<exists>i<length es. resolve_group efetch pmid es = Inr (es ! i)
                 \<and> (es ! i) ''title'' = Some title
                 \<and> (\<forall>j<i. (es ! j) ''title'' \<noteq> Some title)))
       \<and> ((title = [] \<or> (\<forall>i<length es. (es ! i) ''title'' \<noteq> Some title))
            \<and> (\<forall>i<length es. (es ! i) ''year'' \<noteq> None) \<longrightarrow>
            (\<exists>i<length es. resolve_group efetch pmid es = Inr (es ! i)
                 \<and> (\<forall>j<length es. the ((es ! i) ''year'') \<le> the ((es ! j) ''year''))
                 \<and> (\<forall>j<i. the ((es ! i) ''year'') < the ((es ! j) ''year''))))"
proof -
  have len: "length es \<noteq> 1" using assms(1) by simp
  let ?m = "filter (\<lambda>entry. entry ''title'' = Some title) es"
  have a: "\<exists>i<length es. resolve_group efetch pmid es = Inr (es ! i)
                 \<and> (es ! i) ''title'' = Some title
                 \<and> (\<forall>j<i. (es ! j) ''title'' \<noteq> Some title)"
    if t: "title \<noteq> []" and ex: "\<exists>i<length es. (es ! i) ''title'' = Some title"
  proof -
    have ne: "?m \<noteq> []" using ex by (auto simp: filter_empty_conv)
    have "resolve_group efetch pmid es = Inr (hd ?m)"
      using len assms(2) t ne
      by (simp add: resolve_group_def fetch_title_from_biopython_def opt_truthy_def first_of_hd)
    then show ?thesis using first_match_index[OF ne] by auto
  qed
  have b: "\<exists>i<length es. resolve_group efetch pmid es = Inr (es ! i)
                 \<and> (\<forall>j<length es. the ((es ! i) ''year'') \<le> the ((es ! j) ''year''))
                 \<and> (\<forall>j<i. the ((es ! i) ''year'') < the ((es ! j) ''year''))"
    if t: "title = [] \<or> (\<forall>i<length es. (es ! i) ''title'' \<noteq> Some title)"
      and y: "\<forall>i<length es. (es ! i) ''year'' \<noteq> None"
  proof -
    have "title \<noteq> [] \<Longrightarrow> ?m = []" using t by (auto simp: filter_empty_conv in_set_conv_nth)
    then have "resolve_group efetch pmid es = earliest_year es"
      using len assms(2)
      by (auto simp: resolve_group_def fetch_title_from_biopython_def opt_truthy_def)
    then show ?thesis using earliest_year_index[OF assms(1) y] by simp
  qed
  show ?thesis using a b by blast
qed

theorem resolve_group_choice_witness:
  "2 \<le> length [study_a_2021, study_b_2019]
   \<and> resolve_group (\<lambda>p. Inr ''Study A'') (Some ''555'') [study_a_2021, study_b_2019]
       = Inr study_a_2021
   \<and> resolve_group (\<lambda>p. Inr []) (Some ''555'') [study_a_2021, study_b_2019]
       = Inr study_b_2019
   \<and> resolve_group (\<lambda>p. Inr ''Study C'') (Some ''555'') [study_a_2021, study_b_2019]
       = Inr study_b_2019"
  using resolve_group_choice [of "[study_a_2021, study_b_2019]" "\<lambda>p. Inr ''Study A''"
      "Some ''555''" "''Study A''"]
    resolve_group_choice [of "[study_a_2021, study_b_2019]" "\<lambda>p. Inr []" "Some ''555''" "[]"]
  by (simp add: resolve_group_def fetch_title_from_biopython_def opt_truthy_def first_of_def
      earliest_year_def sorted_by_year_def study_a_2021_fields study_b_2019_fields)

section \<open>Properties of the lightweight duplicate check\<close>

lemma remove_duplicates_loop_falsy:
  "filter (\<lambda>e. \<not> opt_truthy (e key)) (fst (remove_duplicates_loop key es (seen, new, removed)))
     = filter (\<lambda>e. \<not> opt_truthy (e key)) new @ filter (\<lambda>e. \<not> opt_truthy (e key)) es"
  by (induction es arbitrary: seen new removed) (auto simp: Let_def)

lemma remove_duplicates_loop_removed:
  "v \<in> snd (remove_duplicates_loop key es (seen, new, removed)) \<Longrightarrow> v \<in> removed \<or> opt_truthy v"
  by (induction es arbitrary: seen new removed) (auto simp: Let_def split: if_splits)

lemma remove_duplicates_by_key_falsy:
  "filter (\<lambda>e. \<not> opt_truthy (e key)) (fst (remove_duplicates_by_key es key))
     = filter (\<lambda>e. \<not> opt_truthy (e key)) es"
  by (simp add: remove_duplicates_by_key_def remove_duplicates_loop_falsy)

lemma remove_duplicates_by_key_removed:
  "v \<in> snd (remove_duplicates_by_key es key) \<Longrightarrow> opt_truthy v"
  using remove_duplicates_loop_removed[of v key es "{}" "[]" "{}"]
  by (simp add: remove_duplicates_by_key_def)

lemma falsy_retained:
  assumes "e \<in> set es" "\<not> opt_truthy (e key)"
  shows "e \<in> set (fst (remove_duplicates_by_key es key))"
proof -
  have "e \<in> set (filter (\<lambda>e. \<not> opt_truthy (e key)) es)" using assms by simp
  then have "e \<in> set (filter (\<lambda>e. \<not> opt_truthy (e key)) (fst (remove_duplicates_by_key es key)))"
    by (simp only: remove_duplicates_by_key_falsy)
  then show ?thesis by simp
qed

text \<open>
  Claim C10. In a pass of the lightweight check over any entry list and for any key, every
  entry whose value for the key is missing or empty is in the surviving list; more, the
  entries without a value survive in their order and number; and neither \<^verbatim>\<open>None\<close> nor
  the empty string is ever in the set of removed values. The check runs three such
  passes, on the key \<^verbatim>\<open>ID\<close>, then on \<^verbatim>\<open>pmid\<close> over the survivors, then on \<^verbatim>\<open>doi\<close>
  over the survivors of that.
\<close>

theorem lightweight_pass_keeps_empty:
  "(\<forall>e\<in>set es. e key = None \<or> e key = Some [] \<longrightarrow> e \<in> set (fst (remove_duplicates_by_key es key)))
   \<and> filter (\<lambda>e. \<not> opt_truthy (e key)) (fst (remove_duplicates_by_key es key))
       = filter (\<lambda>e. \<not> opt_truthy (e key)) es
   \<and> None \<notin> snd (remove_duplicates_by_key es key)
   \<and> Some [] \<notin> snd (remove_duplicates_by_key es key)
   \<and> remaining (check_info_check_duplicates es)
       = fst (remove_duplicates_by_key
               (fst (remove_duplicates_by_key (fst (remove_duplicates_by_key es ''ID'')) ''pmid'')) ''doi'')
   \<and> removed_ids (check_info_check_duplicates es) = snd (remove_duplicates_by_key es ''ID'')
   \<and> removed_pmids (check_info_check_duplicates es)
       = snd (remove_duplicates_by_key (fst (remove_duplicates_by_key es ''ID'')) ''pmid'')
   \<and> removed_dois (check_info_check_duplicates es)
       = snd (remove_duplicates_by_key
               (fst (remove_duplicates_by_key (fst (remove_duplicates_by_key es ''ID'')) ''pmid'')) ''doi'')"
proof -
  have a: "\<forall>e\<in>set es. e key = None \<or> e key = Some [] \<longrightarrow> e \<in> set (fst (remove_duplicates_by_key es key))"
    using falsy_retained[of _ es key] by (auto simp: opt_truthy_def)
  have b: "None \<notin> snd (remove_duplicates_by_key es key)" "Some [] \<notin> snd (remove_duplicates_by_key es key)"
    using remove_duplicates_by_key_removed[of None es key]
      remove_duplicates_by_key_removed[of "Some []" es key] by (auto simp: opt_truthy_def)
  have c: "remaining (check_info_check_duplicates es)
       = fst (remove_duplicates_by_key
               (fst (remove_duplicates_by_key (fst (remove_duplicates_by_key es ''ID'')) ''pmid'')) ''doi'')"
    "removed_ids (check_info_check_duplicates es) = snd (remove_duplicates_by_key es ''ID'')"
    "removed_pmids (check_info_check_duplicates es)
       = snd (remove_duplicates_by_key (fst (remove_duplicates_by_key es ''ID'')) ''pmid'')"
    "removed_dois (check_info_check_duplicates es)
       = snd (remove_duplicates_by_key
               (fst (remove_duplicates_by_key (fst (remove_duplicates_by_key es ''ID'')) ''pmid'')) ''doi'')"
    by (simp_all add: check_info_check_duplicates_def split: prod.splits)
  show ?thesis using a b c remove_duplicates_by_key_falsy[of key es] by blast
qed

theorem lightweight_pass_keeps_empty_witness:
  "remove_duplicates_by_key [study_a_2021, no_pmid_a, study_a_2019, empty_pmid_b, no_pmid_b] ''pmid''
     = ([study_a_2021, no_pmid_a, empty_pmid_b, no_pmid_b], {Some ''555''})
   \<and> no_pmid_a ''pmid'' = None \<and> no_pmid_b ''pmid'' = None \<and> empty_pmid_b ''pmid'' = Some []
   \<and> no_pmid_a \<in> set (fst (remove_duplicates_by_key
         [study_a_2021, no_pmid_a, study_a_2019, empty_pmid_b, no_pmid_b] ''pmid''))"
  using lightweight_pass_keeps_empty
    [of "[study_a_2021, no_pmid_a, study_a_2019, empty_pmid_b, no_pmid_b]" "''pmid''"]
  by (simp add: remove_duplicates_by_key_def opt_truthy_def Let_def
      study_a_2021_fields study_a_2019_fields no_pmid_a_fields no_pmid_b_fields
      empty_pmid_b_fields)

section \<open>Properties of the enrichment\<close>






















lemma space_not_sign: "is_space c \<Longrightarrow> c \<noteq> CHR ''='' \<and> c \<noteq> CHR ''{''"
  by (auto simp: is_space_def)



















section \<open>Properties of the record fetch\<close>

lemma get_bibtex_for_pmid_fails:
  "proc = Inl CalledProcessError \<or> proc = Inr [] \<Longrightarrow>
     \<exists>v. get_bibtex_for_pmid proc = Inr v \<and> \<not> opt_truthy v"
  by (auto simp: get_bibtex_for_pmid_def opt_truthy_def)

text \<open>
  Five failed calls of the tool: the loop ends with a false \<^verbatim>\<open>bibtex_entry\<close> after waits
  of 3, 3.5, 4, 4.5 and 5 seconds.
\<close>

lemma entrez_loop_exhausted:
  assumes "\<forall>n<5. proc n = Inl CalledProcessError \<or> proc n = Inr []"
  shows "\<exists>v. entrez_loop proc 0 w b ws
            = Inr (v, ws @ [w, w + 1/2, w + 1, w + 3/2, w + 2]) \<and> \<not> opt_truthy v"
proof -
  obtain v0 where v0: "get_bibtex_for_pmid (proc 0) = Inr v0" "\<not> opt_truthy v0"
    using assms get_bibtex_for_pmid_fails[of "proc 0"] by auto
  obtain v1 where v1: "get_bibtex_for_pmid (proc (Suc 0)) = Inr v1" "\<not> opt_truthy v1"
    using assms get_bibtex_for_pmid_fails[of "proc (Suc 0)"] by auto
  obtain v2 where v2: "get_bibtex_for_pmid (proc (Suc (Suc 0))) = Inr v2" "\<not> opt_truthy v2"
    using assms get_bibtex_for_pmid_fails[of "proc (Suc (Suc 0))"] by auto
  obtain v3 where v3: "get_bibtex_for_pmid (proc (Suc (Suc (Suc 0)))) = Inr v3" "\<not> opt_truthy v3"
    using assms get_bibtex_for_pmid_fails[of "proc (Suc (Suc (Suc 0)))"] by auto
  obtain v4 where v4: "get_bibtex_for_pmid (proc (Suc (Suc (Suc (Suc 0))))) = Inr v4"
    "\<not> opt_truthy v4"
    using assms get_bibtex_for_pmid_fails[of "proc (Suc (Suc (Suc (Suc 0))))"] by auto
  have "entrez_loop proc 0 w b ws = Inr (v4, ws @ [w, w + 1/2, w + 1, w + 3/2, w + 2])"
    using v0 v1 v2 v3 v4
    by (simp add: entrez_loop.simps[of proc] max_retries_def wait_time_increment_def)
  then show ?thesis using v4(2) by blast
qed

text \<open>
  Claim C3, where the code departs from it. When the tool fails on all five attempts for a
  kept identifier (it exits with an error, or prints nothing), the iteration reaches the
  call of \<^verbatim>\<open>get_bibtex_via_crossref\<close>, which raises \<^verbatim>\<open>NameError\<close>. Nothing in
  \<^verbatim>\<open>ref_gen\<close> catches it: the loop over the kept identifiers ends there, whatever
  identifiers remain, no fallback retrieval is made and no error is logged.
\<close>

theorem fallback_call_aborts_run:
  assumes "\<forall>n<5. pubmed_bib sv n = Inl CalledProcessError \<or> pubmed_bib sv n = Inr []"
  shows "process_pmid sv pmid st = Inl (NameError ''get_bibtex_via_crossref'')
       \<and> fetch_loop ((pmid, sv) # rest) st = Inl (NameError ''get_bibtex_via_crossref'')"
proof -
  obtain v where v: "entrez_loop (pubmed_bib sv) 0 initial_wait_time None []
            = Inr (v, [] @ [initial_wait_time, initial_wait_time + 1/2, initial_wait_time + 1,
                 initial_wait_time + 3/2, initial_wait_time + 2])" "\<not> opt_truthy v"
    using entrez_loop_exhausted[OF assms, of initial_wait_time None "[]"] by blast
  have "process_pmid sv pmid st = Inl (NameError ''get_bibtex_via_crossref'')"
    using v by (simp add: process_pmid_def Let_def get_bibtex_via_crossref_def)
  then show ?thesis by simp
qed

theorem fallback_call_aborts_run_witness:
  "ref_gen [(''1001'', Some 15), (''1002'', Some 20)] 10 (\<lambda>i. failing_services)
     = Inl (NameError ''get_bibtex_via_crossref'')"
  using fallback_call_aborts_run [of failing_services "''1001''" initial_state
      "[(''1002'', failing_services)]"]
  by (simp add: ref_gen_def threshold_filter_def failing_services_def upt_rec)

end
